theory Spec2Isabelle
  imports Main "HOL-Library.Word"
begin

unbundle bit_operations_syntax

section \<open>The SCSI command layer as seen by the shim\<close>

text \<open>
  The shim in \<^verbatim>\<open>shim/boot_dev/sata_boot_shim.c\<close> talks to a disk through
  \<^verbatim>\<open>scsi_execute_req\<close>, which returns a status, fills a sense header and transfers
  data into the caller's buffer.  The two command encodings it builds are the two
  constructors below.
\<close>

datatype scsi_cmd = READ_CAPACITY_16 | READ_CAPACITY_10

text \<open>
  \<^verbatim>\<open>struct scsi_sense_hdr\<close>: the fields the shim reads.  \<open>sense_valid\<close> is the value
  the kernel's \<^verbatim>\<open>scsi_sense_valid(&sshdr)\<close> returns for this header.
\<close>

record scsi_sense_hdr =
  sense_valid :: bool
  sense_key :: "8 word"
  asc :: "8 word"
  ascq :: "8 word"

text \<open>
  What one \<^verbatim>\<open>scsi_execute_req\<close> call hands back: its return value, the
  sense header, and the bytes the device transfers (at most the requested length of
  them reach the buffer).
\<close>

record scsi_reply =
  reply_out :: int
  reply_sshdr :: scsi_sense_hdr
  reply_data :: "8 word list"

text \<open>
  Constants of the kernel headers the file uses: sense keys and the device type of
  \<^verbatim>\<open>scsi/scsi.h\<close>, error numbers of \<^verbatim>\<open>errno-base.h\<close>; and the two constants the
  file defines itself that matter here.
\<close>

definition ILLEGAL_REQUEST :: "8 word" where "ILLEGAL_REQUEST = 0x05"
definition UNIT_ATTENTION :: "8 word" where "UNIT_ATTENTION = 0x06"
definition TYPE_DISK :: "8 word" where "TYPE_DISK = 0x00"

definition EFAULT :: int where "EFAULT = 14"
definition EINVAL :: int where "EINVAL = 22"
definition EIO :: int where "EIO = 5"
definition EEXIST :: int where "EEXIST = 17"
definition ENOENT :: int where "ENOENT = 2"

definition SCSI_RC16_LEN :: nat where "SCSI_RC16_LEN = 32"
definition SCSI_CAP_MAX_RETRIES :: nat where "SCSI_CAP_MAX_RETRIES = 3"

text \<open>
  The \<^verbatim>\<open>kmalloc\<close>ed buffer, addressed by byte offset.  \<^verbatim>\<open>memset(buffer, 0, n)\<close>
  clears the first \<open>n\<close> bytes; a transfer of direction \<^verbatim>\<open>DMA_FROM_DEVICE\<close> with
  length \<open>bufflen\<close> overwrites at most \<open>bufflen\<close> bytes from offset 0.
\<close>

type_synonym buffer = "nat \<Rightarrow> 8 word"

definition memset0 :: "buffer \<Rightarrow> nat \<Rightarrow> buffer" where
  "memset0 buf n = (\<lambda>i. if i < n then 0 else buf i)"

definition dma_from_device :: "8 word list \<Rightarrow> nat \<Rightarrow> buffer \<Rightarrow> buffer" where
  "dma_from_device d bufflen buf =
     (\<lambda>i. if i < bufflen \<and> i < length d then d ! i else buf i)"

definition get_unaligned_be32 :: "buffer \<Rightarrow> nat \<Rightarrow> 32 word" where
  "get_unaligned_be32 p off =
     push_bit 24 (ucast (p off)) OR push_bit 16 (ucast (p (off + 1)))
       OR push_bit 8 (ucast (p (off + 2))) OR ucast (p (off + 3))"

definition get_unaligned_be64 :: "buffer \<Rightarrow> nat \<Rightarrow> 64 word" where
  "get_unaligned_be64 p off =
     push_bit 32 (ucast (get_unaligned_be32 p off)) OR ucast (get_unaligned_be32 p (off + 4))"

section \<open>Devices\<close>

datatype syno_port_type = SYNO_PORT_TYPE_SATA | SYNO_PORT_TYPE_OTHER nat

text \<open>
  \<^verbatim>\<open>struct scsi_device\<close> with the fields the shim touches, the two fields of its host
  it reads (\<^verbatim>\<open>host->host_no\<close>, \<^verbatim>\<open>host->hostt->syno_port_type\<close>), whether
  \<^verbatim>\<open>host->transportt->user_scan\<close> is set, and the hardware behind it:
  \<open>sdev_execute n c\<close> is the reply of the device to command \<open>c\<close> when it is the
  \<open>n\<close>-th command (from 0) sent during one capacity read.
\<close>

record scsi_device =
  sdev_id :: nat
  sdev_channel :: nat
  sdev_vendor :: string
  sdev_model :: string
  sdev_type :: "8 word"
  host_no :: int
  host_syno_port_type :: syno_port_type
  host_user_scan :: bool
  sdev_execute :: "nat \<Rightarrow> scsi_cmd \<Rightarrow> scsi_reply"

text \<open>A \<^verbatim>\<open>struct device\<close> is a SCSI end device or anything else on the bus.\<close>

datatype device = Scsi_sdev scsi_device | Other_dev string

section \<open>What the shim does to the outside\<close>

datatype loglevel = Dbg | Info | Wrn | Err | Crt | Bug

datatype log_msg =
    Kmalloc_failure
  | Invalid_sense_trying_again
  | Drive_refused_to_provide_capacity
  | Drive_busy_during_capacity_pre_read int
  | Failed_to_pre_read_capacity int
  | Probing_SATA_disk nat nat string string
  | Failed_to_estimate_drive_capacity
  | Capacity_WILL_NOT_be_shimmed int "64 word"
  | Boot_device_was_already_shimmed int "64 word"
  | Capacity_is_a_shimmable_target int "64 word"
  | New_device_not_a_SATA_disk
  | Shimming_device string string
  | Existing_device_not_a_SATA_disk
  | Device_is_not_a_shim_target
  | Device_already_connected_reconnecting string string
  | Removing_device_from_host int
  | Triggering_template_based_rescan int
  | Triggering_generic_rescan int
  | Bus_for_each_dev_returned int
  | Unsupported_device_type
  | Shim_already_registered
  | Failed_to_get_sd_driver
  | Shim_registered
  | Shim_not_registered
  | Shim_unregistered

datatype event =
    Exec scsi_cmd
  | Msleep nat
  | Kfree
  | Log loglevel log_msg

section \<open>Reading the capacity\<close>

text \<open>
  \<^verbatim>\<open>scsi_read_cap16\<close> and \<^verbatim>\<open>scsi_read_cap10\<close>: clear the head of the buffer, send the
  command as the \<open>tick\<close>-th of this read, and give back the status, the buffer and the
  sense header.
\<close>

definition scsi_read_cap16 :: "scsi_device \<Rightarrow> nat \<Rightarrow> buffer \<Rightarrow> int \<times> buffer \<times> scsi_sense_hdr" where
  "scsi_read_cap16 sdp tick buffer =
     (let r = sdev_execute sdp tick READ_CAPACITY_16
      in (reply_out r, dma_from_device (reply_data r) SCSI_RC16_LEN (memset0 buffer SCSI_RC16_LEN),
          reply_sshdr r))"

definition scsi_read_cap10 :: "scsi_device \<Rightarrow> nat \<Rightarrow> buffer \<Rightarrow> int \<times> buffer \<times> scsi_sense_hdr" where
  "scsi_read_cap10 sdp tick buffer =
     (let r = sdev_execute sdp tick READ_CAPACITY_10
      in (reply_out r, dma_from_device (reply_data r) 8 (memset0 buffer 8), reply_sshdr r))"

text \<open>
  One pass through the body of the \<^verbatim>\<open>do { ... } while (--read_retry)\<close> loop of
  \<^verbatim>\<open>opportunistic_read_capacity\<close>.  \<open>Break\<close> leaves the loop, \<open>Return v\<close> leaves the
  function, \<open>Next\<close> is a \<^verbatim>\<open>continue\<close> or the end of the body: both go to the loop
  condition.
\<close>

datatype body_exit = Break | Next | Return int

definition hard_refusal :: "scsi_sense_hdr \<Rightarrow> bool" where
  "hard_refusal h \<longleftrightarrow>
     sense_key h = ILLEGAL_REQUEST \<and> (asc h = 0x20 \<or> asc h = 0x24) \<and> ascq h = 0x00"

definition drive_busy :: "scsi_sense_hdr \<Rightarrow> bool" where
  "drive_busy h \<longleftrightarrow> sense_key h = UNIT_ATTENTION \<and> asc h = 0x29 \<and> ascq h = 0x00"

definition rc_body ::
  "scsi_device \<Rightarrow> bool \<Rightarrow> nat \<Rightarrow> nat \<Rightarrow> buffer \<Rightarrow> body_exit \<times> bool \<times> int \<times> buffer \<times> event list" where
  "rc_body sdp use_cap16 read_retry tick buffer =
     (case (if use_cap16 then scsi_read_cap16 sdp tick buffer else scsi_read_cap10 sdp tick buffer) of
        (out, buffer', sshdr) \<Rightarrow>
          (let ev = [Exec (if use_cap16 then READ_CAPACITY_16 else READ_CAPACITY_10)] in
           if out = 0 then (Break, use_cap16, out, buffer', ev)
           else if out > 0 then
             (if \<not> use_cap16 then (Next, False, out, buffer', ev)
              else if \<not> sense_valid sshdr then
                (Next, use_cap16, out, buffer', ev @ [Log Dbg Invalid_sense_trying_again])
              else if hard_refusal sshdr then
                (Return (- EINVAL), use_cap16, out, buffer',
                 ev @ [Log Err Drive_refused_to_provide_capacity])
              else if drive_busy sshdr then
                (Next, use_cap16, out, buffer',
                 ev @ [Log Dbg (Drive_busy_during_capacity_pre_read (int read_retry - 1)), Msleep 500])
              else (Next, use_cap16, out, buffer', ev))
           else (Next, use_cap16, out, buffer', ev)))"

text \<open>
  The loop.  It gives back an early return value if there was one, and the locals the
  code after the loop reads: \<open>out\<close>, \<open>read_retry\<close>, the buffer.
\<close>

function rc_loop ::
  "scsi_device \<Rightarrow> bool \<Rightarrow> nat \<Rightarrow> nat \<Rightarrow> buffer \<Rightarrow> event list
     \<Rightarrow> int option \<times> int \<times> nat \<times> buffer \<times> event list" where
  "rc_loop sdp use_cap16 read_retry tick buffer ev =
     (case rc_body sdp use_cap16 read_retry tick buffer of
        (Break, _, out, buffer', ev') \<Rightarrow> (None, out, read_retry, buffer', ev @ ev')
      | (Return v, _, out, buffer', ev') \<Rightarrow> (Some v, out, read_retry, buffer', ev @ ev')
      | (Next, use_cap16', out, buffer', ev') \<Rightarrow>
          (if read_retry - 1 \<noteq> 0
           then rc_loop sdp use_cap16' (read_retry - 1) (tick + 1) buffer' (ev @ ev')
           else (None, out, read_retry - 1, buffer', ev @ ev')))"
  by pat_completeness auto
termination
  by (relation "measure (\<lambda>(sdp, use_cap16, read_retry, tick, buffer, ev). read_retry)") auto

definition size_mb :: "buffer \<Rightarrow> int" where
  "size_mb buffer =
     (let sector_size = get_unaligned_be32 buffer 8;
          lba = get_unaligned_be64 buffer 0
      in sint (((lba + 1) * ucast sector_size) div 1024 div 1024))"

text \<open>
  \<^verbatim>\<open>opportunistic_read_capacity\<close>.  \<open>kmalloc\<close> is what \<^verbatim>\<open>kmalloc(SCSI_BUF_SIZE, GFP_KERNEL)\<close>
  gives this call: \<open>None\<close> for a null pointer, otherwise the buffer with whatever bytes
  it holds.  The result is the \<^verbatim>\<open>long long\<close> returned and what the call did to the
  outside, in order.
\<close>

definition opportunistic_read_capacity :: "buffer option \<Rightarrow> scsi_device \<Rightarrow> int \<times> event list" where
  "opportunistic_read_capacity kmalloc sdp =
     (case kmalloc of
        None \<Rightarrow> (- EFAULT, [Log Crt Kmalloc_failure])
      | Some buffer \<Rightarrow>
          (case rc_loop sdp True SCSI_CAP_MAX_RETRIES 0 buffer [] of
             (Some v, _, _, _, ev) \<Rightarrow> (v, ev)
           | (None, out, read_retry, buffer', ev) \<Rightarrow>
               (if out \<noteq> 0
                then (- EIO,
                      ev @ [Log Err (Failed_to_pre_read_capacity
                                       (int SCSI_CAP_MAX_RETRIES - int read_retry)), Kfree])
                else (size_mb buffer', ev @ [Kfree]))))"

section \<open>The state of the module and of the kernel around it\<close>

text \<open>
  A probe entry point is the shim's own \<^verbatim>\<open>sd_probe_shim\<close> or a function of the kernel,
  named by its address.  A function pointer is \<open>None\<close> when it is \<^verbatim>\<open>NULL\<close>.
\<close>

datatype probe_fn = Sd_probe_shim | Kernel_fn nat

text \<open>
  Modelled from the spec: \<^verbatim>\<open>struct boot_media\<close> and its type constants are declared in
  \<^verbatim>\<open>config/runtime_config.h\<close>, which is not among the sources.  The spec's
  \<open>BootMediaConfig\<close> has a device-class selector, which must be SATA for this shim,
  and \<open>domSizeMiB\<close>, the inclusive upper bound on the capacity.
\<close>

datatype boot_media_type = BOOT_MEDIA_USB | BOOT_MEDIA_SATA

record boot_media =
  bm_type :: boot_media_type
  dom_size_mib :: "64 word"

text \<open>
  The globals of the file (\<open>max_dom_size_mib\<close>, \<open>device_mapped\<close>, \<open>org_sd_probe\<close>)
  and the part of the kernel the file reads and writes: the pointer
  \<^verbatim>\<open>driver_find("sd", &scsi_bus_type)\<close> returns, the \<^verbatim>\<open>probe\<close> field of that driver, the
  devices by address, the addresses on the SCSI bus in the order
  \<^verbatim>\<open>bus_for_each_dev\<close> visits them, what \<^verbatim>\<open>kmalloc\<close> returns, and everything done to the
  outside so far.
\<close>

record world =
  max_dom_size_mib :: "64 word"
  device_mapped :: bool
  org_sd_probe :: "probe_fn option"
  driver_find_sd :: "64 word"
  drv_probe :: "probe_fn option"
  devices :: "nat \<Rightarrow> device"
  scsi_bus :: "nat list"
  kmalloc :: "buffer option"
  events :: "event list"

text \<open>
  The kernel functions the file calls and the two build-time strings it writes, as
  parameters: \<open>call_fn k f dev\<close> runs the kernel function at address \<open>f\<close> on the
  device at address \<open>dev\<close>; the scans take the \<^verbatim>\<open>host_no\<close> of the host.
\<close>

record kernel =
  CONFIG_SYNO_SATA_DOM_VENDOR :: string
  CONFIG_SYNO_SATA_DOM_MODEL :: string
  call_fn :: "nat \<Rightarrow> nat \<Rightarrow> world \<Rightarrow> int \<times> world"
  scsi_remove_device :: "nat \<Rightarrow> world \<Rightarrow> world"
  user_scan :: "int \<Rightarrow> world \<Rightarrow> world"
  scsi_scan_host_selected :: "int \<Rightarrow> world \<Rightarrow> world"

text \<open>
  The \<^verbatim>\<open>pr_loc_dbg\<close>, \<^verbatim>\<open>pr_loc_inf\<close>, \<^verbatim>\<open>pr_loc_wrn\<close>, \<^verbatim>\<open>pr_loc_err\<close>, \<^verbatim>\<open>pr_loc_crt\<close> and
  \<^verbatim>\<open>pr_loc_bug\<close> macros of \<^verbatim>\<open>common.h\<close>: one more line in the log.
\<close>

definition pr_loc :: "loglevel \<Rightarrow> log_msg \<Rightarrow> world \<Rightarrow> world" where
  "pr_loc l m w = w\<lparr>events := events w @ [Log l m]\<rparr>"

text \<open>
  \<^verbatim>\<open>IS_ERR\<close> and \<^verbatim>\<open>PTR_ERR\<close> of \<^verbatim>\<open>linux/err.h\<close> on a 64-bit pointer: the top
  \<^verbatim>\<open>MAX_ERRNO\<close> = 4095 addresses are error codes.
\<close>

definition IS_ERR :: "64 word \<Rightarrow> bool" where
  "IS_ERR ptr \<longleftrightarrow> ptr \<ge> - 4095"

definition PTR_ERR :: "64 word \<Rightarrow> int" where
  "PTR_ERR ptr = sint ptr"

section \<open>Classifying a device\<close>

definition is_sata_disk :: "device \<Rightarrow> bool" where
  "is_sata_disk dev =
     (case dev of
        Other_dev _ \<Rightarrow> False
      | Scsi_sdev sdp \<Rightarrow>
          (if sdev_type sdp \<noteq> TYPE_DISK \<or> host_syno_port_type sdp \<noteq> SYNO_PORT_TYPE_SATA
           then False else True))"

text \<open>
  \<^verbatim>\<open>is_shim_target\<close>.  \<^verbatim>\<open>capacity_mib > max_dom_size_mib\<close> compares a \<^verbatim>\<open>long long\<close>
  with an \<^verbatim>\<open>unsigned long\<close>: with 64-bit longs both sides are converted to unsigned
  64 bits.
\<close>

definition is_shim_target :: "scsi_device \<Rightarrow> world \<Rightarrow> bool \<times> world" where
  "is_shim_target sdp w =
     (let w1 = pr_loc Dbg (Probing_SATA_disk (sdev_id sdp) (sdev_channel sdp)
                             (sdev_vendor sdp) (sdev_model sdp)) w
      in case opportunistic_read_capacity (kmalloc w1) sdp of
           (capacity_mib, ev) \<Rightarrow>
             (let w2 = w1\<lparr>events := events w1 @ ev\<rparr> in
              if capacity_mib < 0 then (False, pr_loc Dbg Failed_to_estimate_drive_capacity w2)
              else if (word_of_int capacity_mib :: 64 word) > max_dom_size_mib w2 then
                (False, pr_loc Dbg (Capacity_WILL_NOT_be_shimmed capacity_mib (max_dom_size_mib w2)) w2)
              else if device_mapped w2 then
                (False, pr_loc Wrn (Boot_device_was_already_shimmed capacity_mib (max_dom_size_mib w2)) w2)
              else
                (True, pr_loc Dbg (Capacity_is_a_shimmable_target capacity_mib (max_dom_size_mib w2)) w2)))"

section \<open>The intercepting probe\<close>

text \<open>
  \<^verbatim>\<open>return org_sd_probe(dev)\<close>: a call through a null pointer does not return, and
  neither does the shim calling itself without end; both are \<open>None\<close>.
\<close>

definition call_org_sd_probe :: "kernel \<Rightarrow> nat \<Rightarrow> world \<Rightarrow> (int \<times> world) option" where
  "call_org_sd_probe k dev w =
     (case org_sd_probe w of
        None \<Rightarrow> None
      | Some Sd_probe_shim \<Rightarrow> None
      | Some (Kernel_fn f) \<Rightarrow> Some (call_fn k f dev w))"

definition sd_probe_shim :: "kernel \<Rightarrow> nat \<Rightarrow> world \<Rightarrow> (int \<times> world) option" where
  "sd_probe_shim k dev w =
     (if \<not> is_sata_disk (devices w dev) then
        call_org_sd_probe k dev (pr_loc Dbg New_device_not_a_SATA_disk w)
      else
        (case devices w dev of
           Other_dev _ \<Rightarrow> call_org_sd_probe k dev w
         | Scsi_sdev sdp \<Rightarrow>
             (case is_shim_target sdp w of
                (True, w1) \<Rightarrow>
                  (let w2 = pr_loc Dbg (Shimming_device (CONFIG_SYNO_SATA_DOM_VENDOR k)
                                          (CONFIG_SYNO_SATA_DOM_MODEL k)) w1;
                       w3 = w2\<lparr>devices := (devices w2)
                              (dev := Scsi_sdev (sdp\<lparr>sdev_vendor := CONFIG_SYNO_SATA_DOM_VENDOR k\<rparr>))\<rparr>;
                       w4 = w3\<lparr>devices := (devices w3)
                              (dev := Scsi_sdev (sdp\<lparr>sdev_vendor := CONFIG_SYNO_SATA_DOM_VENDOR k,
                                                     sdev_model := CONFIG_SYNO_SATA_DOM_MODEL k\<rparr>))\<rparr>;
                       w5 = w4\<lparr>device_mapped := True\<rparr>
                   in call_org_sd_probe k dev w5)
              | (False, w1) \<Rightarrow> call_org_sd_probe k dev w1)))"

section \<open>Devices that were there before the shim\<close>

definition on_existing_device :: "kernel \<Rightarrow> nat \<Rightarrow> world \<Rightarrow> int \<times> world" where
  "on_existing_device k dev w =
     (if \<not> is_sata_disk (devices w dev) then
        (0, pr_loc Dbg Existing_device_not_a_SATA_disk w)
      else
        (case devices w dev of
           Other_dev _ \<Rightarrow> (0, w)
         | Scsi_sdev sdp \<Rightarrow>
             (case is_shim_target sdp w of
                (False, w1) \<Rightarrow> (0, pr_loc Dbg Device_is_not_a_shim_target w1)
              | (True, w1) \<Rightarrow>
                  (let w2 = pr_loc Info (Device_already_connected_reconnecting
                                          (sdev_vendor sdp) (sdev_model sdp)) w1;
                       w3 = pr_loc Dbg (Removing_device_from_host (host_no sdp)) w2;
                       w4 = scsi_remove_device k dev w3;
                       w5 = (if host_user_scan sdp
                             then user_scan k (host_no sdp)
                                    (pr_loc Dbg (Triggering_template_based_rescan (host_no sdp)) w4)
                             else scsi_scan_host_selected k (host_no sdp)
                                    (pr_loc Dbg (Triggering_generic_rescan (host_no sdp)) w4))
                   in (0, w5)))))"

text \<open>
  The kernel's \<^verbatim>\<open>bus_for_each_dev\<close>: call \<open>fn\<close> on each device in turn and stop at the
  first result that is not 0, which is then returned.
\<close>

fun bus_for_each_dev :: "(nat \<Rightarrow> world \<Rightarrow> int \<times> world) \<Rightarrow> nat list \<Rightarrow> world \<Rightarrow> int \<times> world" where
  "bus_for_each_dev fn [] w = (0, w)"
| "bus_for_each_dev fn (dev # rest) w =
     (case fn dev w of
        (error, w') \<Rightarrow> if error \<noteq> 0 then (error, w') else bus_for_each_dev fn rest w')"

definition probe_existing_devices :: "kernel \<Rightarrow> world \<Rightarrow> world" where
  "probe_existing_devices k w =
     (case bus_for_each_dev (on_existing_device k) (scsi_bus w) w of
        (code, w') \<Rightarrow> pr_loc Dbg (Bus_for_each_dev_returned code) w')"

section \<open>Registering and unregistering\<close>

text \<open>
  The two entry points of the build with \<^verbatim>\<open>NATIVE_SATA_DOM_SUPPORTED\<close>.  The driver
  pointer is only tested with \<^verbatim>\<open>IS_ERR\<close>; a null pointer is dereferenced, and that call
  does not return: \<open>None\<close>.
\<close>

definition register_sata_boot_shim :: "kernel \<Rightarrow> boot_media \<Rightarrow> world \<Rightarrow> (int \<times> world) option" where
  "register_sata_boot_shim k boot_dev_config w =
     (if bm_type boot_dev_config \<noteq> BOOT_MEDIA_SATA then
        Some (- EINVAL, pr_loc Bug Unsupported_device_type w)
      else if org_sd_probe w \<noteq> None then
        Some (- EEXIST, pr_loc Bug Shim_already_registered w)
      else
        (let drv = driver_find_sd w in
         if IS_ERR drv then Some (PTR_ERR drv, pr_loc Crt Failed_to_get_sd_driver w)
         else if drv = 0 then None
         else
           (let w1 = w\<lparr>max_dom_size_mib := dom_size_mib boot_dev_config\<rparr>;
                w2 = w1\<lparr>org_sd_probe := drv_probe w1\<rparr>;
                w3 = w2\<lparr>drv_probe := Some Sd_probe_shim\<rparr>;
                w4 = probe_existing_devices k w3
            in Some (0, pr_loc Dbg Shim_registered w4))))"

definition unregister_sata_boot_shim :: "world \<Rightarrow> (int \<times> world) option" where
  "unregister_sata_boot_shim w =
     (if org_sd_probe w = None then
        Some (- ENOENT, pr_loc Bug Shim_not_registered w)
      else
        (let drv = driver_find_sd w in
         if IS_ERR drv then Some (PTR_ERR drv, pr_loc Crt Failed_to_get_sd_driver w)
         else if drv = 0 then None
         else
           (let w1 = w\<lparr>drv_probe := org_sd_probe w\<rparr>;
                w2 = w1\<lparr>org_sd_probe := None\<rparr>;
                w3 = w2\<lparr>max_dom_size_mib := 0\<rparr>
            in Some (0, pr_loc Dbg Shim_unregistered w3))))"

section \<open>Vocabulary for the statements\<close>

text \<open>
  The three kinds of failed reply the loop tells apart when it has sent
  \<^verbatim>\<open>READ CAPACITY (16)\<close>: a hard refusal (the test before \<^verbatim>\<open>return -EINVAL\<close>), a busy
  drive (the test before \<^verbatim>\<open>msleep(500)\<close>), and any failure that is not a hard refusal.
\<close>

definition hard_refused :: "scsi_reply \<Rightarrow> bool" where
  "hard_refused r \<longleftrightarrow>
     reply_out r > 0 \<and> sense_valid (reply_sshdr r) \<and> hard_refusal (reply_sshdr r)"

definition transient_busy :: "scsi_reply \<Rightarrow> bool" where
  "transient_busy r \<longleftrightarrow>
     reply_out r > 0 \<and> sense_valid (reply_sshdr r) \<and> drive_busy (reply_sshdr r)"

definition soft_failure :: "scsi_reply \<Rightarrow> bool" where
  "soft_failure r \<longleftrightarrow> reply_out r \<noteq> 0 \<and> \<not> hard_refused r"

fun is_exec :: "event \<Rightarrow> bool" where
  "is_exec (Exec _) = True"
| "is_exec _ = False"

text \<open>The buffer after \<^verbatim>\<open>scsi_read_cap16\<close> received reply \<open>r\<close>.\<close>

definition rc16_buffer :: "scsi_reply \<Rightarrow> buffer \<Rightarrow> buffer" where
  "rc16_buffer r buffer =
     dma_from_device (reply_data r) SCSI_RC16_LEN (memset0 buffer SCSI_RC16_LEN)"

section \<open>Sample devices\<close>

definition no_sense :: scsi_sense_hdr where
  "no_sense = \<lparr>sense_valid = False, sense_key = 0, asc = 0, ascq = 0\<rparr>"

text \<open>204800 blocks of 512 bytes: 100 MiB, as \<^verbatim>\<open>READ CAPACITY (16)\<close> data.\<close>

definition reply_100MiB :: scsi_reply where
  "reply_100MiB =
     \<lparr>reply_out = 0, reply_sshdr = no_sense,
      reply_data = [0, 0, 0, 0, 0, 0x03, 0x1F, 0xFF, 0, 0, 0x02, 0]\<rparr>"

text \<open>The same disk answering \<^verbatim>\<open>READ CAPACITY (10)\<close>: four bytes of address, four of size.\<close>

definition reply10_100MiB :: scsi_reply where
  "reply10_100MiB =
     \<lparr>reply_out = 0, reply_sshdr = no_sense,
      reply_data = [0, 0x03, 0x1F, 0xFF, 0, 0, 0x02, 0]\<rparr>"

definition reply_refused :: scsi_reply where
  "reply_refused =
     \<lparr>reply_out = 2,
      reply_sshdr = \<lparr>sense_valid = True, sense_key = 0x05, asc = 0x20, ascq = 0x00\<rparr>,
      reply_data = []\<rparr>"

definition reply_busy :: scsi_reply where
  "reply_busy =
     \<lparr>reply_out = 2,
      reply_sshdr = \<lparr>sense_valid = True, sense_key = 0x06, asc = 0x29, ascq = 0x00\<rparr>,
      reply_data = []\<rparr>"

definition plain_disk :: scsi_device where
  "plain_disk =
     \<lparr>sdev_id = 0, sdev_channel = 0, sdev_vendor = ''QEMU'', sdev_model = ''HARDDISK'',
      sdev_type = 0x00, host_no = 6, host_syno_port_type = SYNO_PORT_TYPE_SATA,
      host_user_scan = True,
      sdev_execute = (\<lambda>n c. case c of READ_CAPACITY_16 \<Rightarrow> reply_100MiB
                                | READ_CAPACITY_10 \<Rightarrow> reply10_100MiB)\<rparr>"

text \<open>An old disk: it refuses the 16-byte command for good and answers the 10-byte one.\<close>

definition legacy_only_disk :: scsi_device where
  "legacy_only_disk =
     plain_disk\<lparr>sdev_execute := (\<lambda>n c. case c of READ_CAPACITY_16 \<Rightarrow> reply_refused
                                             | READ_CAPACITY_10 \<Rightarrow> reply10_100MiB)\<rparr>"

text \<open>A disk that is busy for the first two commands, and one that stays busy.\<close>

definition spinning_up_disk :: scsi_device where
  "spinning_up_disk =
     plain_disk\<lparr>sdev_execute := (\<lambda>n c. if n < 2 then reply_busy else reply_100MiB)\<rparr>"

definition stuck_disk :: scsi_device where
  "stuck_disk = plain_disk\<lparr>sdev_execute := (\<lambda>n c. reply_busy)\<rparr>"

text \<open>A disk that is busy once and then refuses.\<close>

definition busy_then_refusing_disk :: scsi_device where
  "busy_then_refusing_disk =
     plain_disk\<lparr>sdev_execute := (\<lambda>n c. if n < 1 then reply_busy else reply_refused)\<rparr>"

section \<open>A sample kernel and sample states\<close>

text \<open>
  A kernel whose original probe returns 0 and changes nothing, whose remove takes the
  device off the bus and whose scans do nothing; a freshly booted state with one SATA
  disk of 100 MiB and one device that is not a disk; the same state with the shim
  registered for 200 MiB; and that state after a device has been shimmed.
\<close>

definition sample_kernel :: kernel where
  "sample_kernel =
     \<lparr>CONFIG_SYNO_SATA_DOM_VENDOR = ''SATADOM-'', CONFIG_SYNO_SATA_DOM_MODEL = ''TYPE D 3SE'',
      call_fn = (\<lambda>f dev w. (0, w)),
      scsi_remove_device = (\<lambda>dev w. w\<lparr>scsi_bus := removeAll dev (scsi_bus w)\<rparr>),
      user_scan = (\<lambda>h w. w),
      scsi_scan_host_selected = (\<lambda>h w. w)\<rparr>"

definition booted_world :: world where
  "booted_world =
     \<lparr>max_dom_size_mib = 0, device_mapped = False, org_sd_probe = None,
      driver_find_sd = 0xFFFFFFFF81A2B3C0, drv_probe = Some (Kernel_fn 1),
      devices = (\<lambda>a. if a = 0 then Scsi_sdev plain_disk else Other_dev ''host6''),
      scsi_bus = [1, 0], kmalloc = Some (\<lambda>i. 0), events = []\<rparr>"

definition installed_world :: world where
  "installed_world =
     booted_world\<lparr>max_dom_size_mib := 200, org_sd_probe := Some (Kernel_fn 1),
                  drv_probe := Some Sd_probe_shim\<rparr>"

definition mapped_world :: world where
  "mapped_world = installed_world\<lparr>device_mapped := True\<rparr>"

definition sata_config :: boot_media where
  "sata_config = \<lparr>bm_type = BOOT_MEDIA_SATA, dom_size_mib = 200\<rparr>"

definition usb_config :: boot_media where
  "usb_config = \<lparr>bm_type = BOOT_MEDIA_USB, dom_size_mib = 200\<rparr>"

text \<open>
  A bus with two small SATA disks, and a kernel whose rescan probes again, through the
  shim, each device that is off the bus, and puts it back at the end of the bus.
\<close>

definition second_disk :: scsi_device where
  "second_disk = plain_disk\<lparr>sdev_id := 1, sdev_vendor := ''ATA'', sdev_model := ''DATA DISK''\<rparr>"

definition reprobe :: "nat \<Rightarrow> world \<Rightarrow> world" where
  "reprobe a w =
     (if a \<in> set (scsi_bus w) then w
      else (case sd_probe_shim sample_kernel a w of
              None \<Rightarrow> w
            | Some (r, w') \<Rightarrow> w'\<lparr>scsi_bus := scsi_bus w' @ [a]\<rparr>))"

definition reprobing_kernel :: kernel where
  "reprobing_kernel =
     sample_kernel\<lparr>user_scan := (\<lambda>h w. reprobe 2 (reprobe 1 (reprobe 0 w)))\<rparr>"

definition two_disk_world :: world where
  "two_disk_world =
     booted_world\<lparr>devices := (\<lambda>a. if a = 0 then Scsi_sdev plain_disk
                                   else if a = 2 then Scsi_sdev second_disk
                                   else Other_dev ''host6''),
                  scsi_bus := [0, 1, 2]\<rparr>"



text \<open>
  What is looked at after a run: the result, the vendor and model of the devices at
  addresses 0 and 2, \<open>device_mapped\<close>, the bus and the events.
\<close>

fun identity :: "device \<Rightarrow> string \<times> string" where
  "identity (Scsi_sdev sdp) = (sdev_vendor sdp, sdev_model sdp)"
| "identity (Other_dev n) = (n, [])"

definition outcome ::
  "(int \<times> world) option
     \<Rightarrow> (int \<times> (string \<times> string) \<times> (string \<times> string) \<times> bool \<times> nat list \<times> event list) option" where
  "outcome r =
     map_option (\<lambda>(c, w). (c, identity (devices w 0), identity (devices w 2), device_mapped w,
                            scsi_bus w, events w)) r"

section \<open>The capacity read: the loop\<close>

declare rc_loop.simps [simp del]

lemma busy_not_hard: "drive_busy h \<Longrightarrow> \<not> hard_refusal h"
  by (simp add: drive_busy_def hard_refusal_def ILLEGAL_REQUEST_def UNIT_ATTENTION_def)

lemma transient_busy_soft: "transient_busy r \<Longrightarrow> soft_failure r"
  by (auto simp: transient_busy_def soft_failure_def hard_refused_def dest: busy_not_hard)

lemma rc_body_success:
  assumes "reply_out (sdev_execute sdp tick READ_CAPACITY_16) = 0"
  shows "rc_body sdp True rr tick buf =
           (Break, True, 0, rc16_buffer (sdev_execute sdp tick READ_CAPACITY_16) buf,
            [Exec READ_CAPACITY_16])"
  using assms by (simp add: rc_body_def scsi_read_cap16_def rc16_buffer_def Let_def)

lemma rc_body_hard:
  assumes "hard_refused (sdev_execute sdp tick READ_CAPACITY_16)"
  shows "rc_body sdp True rr tick buf =
           (Return (- EINVAL), True, reply_out (sdev_execute sdp tick READ_CAPACITY_16),
            rc16_buffer (sdev_execute sdp tick READ_CAPACITY_16) buf,
            [Exec READ_CAPACITY_16, Log Err Drive_refused_to_provide_capacity])"
  using assms by (simp add: rc_body_def scsi_read_cap16_def rc16_buffer_def Let_def hard_refused_def)

lemma rc_body_busy:
  assumes "transient_busy (sdev_execute sdp tick READ_CAPACITY_16)"
  shows "rc_body sdp True rr tick buf =
           (Next, True, reply_out (sdev_execute sdp tick READ_CAPACITY_16),
            rc16_buffer (sdev_execute sdp tick READ_CAPACITY_16) buf,
            [Exec READ_CAPACITY_16, Log Dbg (Drive_busy_during_capacity_pre_read (int rr - 1)),
             Msleep 500])"
  using assms busy_not_hard [of "reply_sshdr (sdev_execute sdp tick READ_CAPACITY_16)"]
  by (simp add: rc_body_def scsi_read_cap16_def rc16_buffer_def Let_def transient_busy_def)

lemma rc_body_soft:
  assumes "soft_failure (sdev_execute sdp tick READ_CAPACITY_16)"
  shows "\<exists>ev'. rc_body sdp True rr tick buf =
           (Next, True, reply_out (sdev_execute sdp tick READ_CAPACITY_16),
            rc16_buffer (sdev_execute sdp tick READ_CAPACITY_16) buf,
            Exec READ_CAPACITY_16 # ev') \<and> \<not> list_ex is_exec ev'"
  using assms
  by (simp add: rc_body_def scsi_read_cap16_def rc16_buffer_def Let_def soft_failure_def
      hard_refused_def)

lemma rc_loop_skip_soft:
  assumes "\<forall>i<n. soft_failure (sdev_execute sdp (tick + i) READ_CAPACITY_16)" "n < rr"
  shows "\<exists>buf' ev'. rc_loop sdp True rr tick buf ev =
            rc_loop sdp True (rr - n) (tick + n) buf' (ev @ ev')
          \<and> length (filter is_exec ev') = n \<and> (n = 0 \<longrightarrow> buf' = buf \<and> ev' = [])
          \<and> Exec READ_CAPACITY_10 \<notin> set ev'"
  using assms
proof (induction n arbitrary: rr tick buf ev)
  case 0
  show ?case by (rule exI [of _ buf], rule exI [of _ "[]"]) simp
next
  case (Suc n)
  have s0: "soft_failure (sdev_execute sdp tick READ_CAPACITY_16)"
    using Suc.prems(1) [rule_format, of 0] by simp
  obtain e0 where b: "rc_body sdp True rr tick buf =
           (Next, True, reply_out (sdev_execute sdp tick READ_CAPACITY_16),
            rc16_buffer (sdev_execute sdp tick READ_CAPACITY_16) buf,
            Exec READ_CAPACITY_16 # e0)" and e0: "\<not> list_ex is_exec e0"
    using rc_body_soft [OF s0, of rr buf] by blast
  let ?b1 = "rc16_buffer (sdev_execute sdp tick READ_CAPACITY_16) buf"
  have rr: "rr - 1 \<noteq> 0" using Suc.prems(2) by simp
  have step: "rc_loop sdp True rr tick buf ev =
        rc_loop sdp True (rr - 1) (tick + 1) ?b1 (ev @ Exec READ_CAPACITY_16 # e0)"
    using rr by (subst rc_loop.simps) (simp add: b)
  have "\<forall>i<n. soft_failure (sdev_execute sdp (tick + 1 + i) READ_CAPACITY_16)"
    using Suc.prems(1) by (metis Suc_less_eq add_Suc_right add_Suc_shift Suc_eq_plus1)
  moreover have "n < rr - 1" using Suc.prems(2) by simp
  ultimately obtain buf' ev' where
    ih: "rc_loop sdp True (rr - 1) (tick + 1) ?b1 (ev @ Exec READ_CAPACITY_16 # e0) =
           rc_loop sdp True (rr - 1 - n) (tick + 1 + n) buf' ((ev @ Exec READ_CAPACITY_16 # e0) @ ev')"
    and len: "length (filter is_exec ev') = n" and no10: "Exec READ_CAPACITY_10 \<notin> set ev'"
    using Suc.IH [of "tick + 1" "rr - 1" ?b1 "ev @ Exec READ_CAPACITY_16 # e0"] by blast
  have f0: "filter is_exec e0 = []" using e0 by (simp add: list_ex_iff filter_empty_conv)
  have n0: "Exec READ_CAPACITY_10 \<notin> set e0" using e0 by (auto simp: list_ex_iff)
  show ?case
    apply (rule exI [of _ buf'], rule exI [of _ "Exec READ_CAPACITY_16 # e0 @ ev'"])
    using step ih len no10 f0 n0 by simp
qed


lemma rc_body_True:
  assumes "rc_body sdp True rr tick buf = (x, u', out', b', ev')"
  shows "u' = True \<and> Exec READ_CAPACITY_10 \<notin> set ev' \<and> (\<forall>v. x = Return v \<longrightarrow> v = - EINVAL)"
  using assms
  by (auto simp: rc_body_def scsi_read_cap16_def Let_def split: if_splits)

lemma rc_loop_True:
  assumes "rc_loop sdp u rr tick buf ev = (ret, out', rr', b', evs)" "u = True"
    "Exec READ_CAPACITY_10 \<notin> set ev"
  shows "Exec READ_CAPACITY_10 \<notin> set evs \<and> (\<forall>v. ret = Some v \<longrightarrow> v = - EINVAL)"
  using assms
proof (induction sdp u rr tick buf ev rule: rc_loop.induct)
  case (1 sdp use_cap16 read_retry tick buffer ev)
  obtain x u1 o1 b1 e1 where b: "rc_body sdp True read_retry tick buffer = (x, u1, o1, b1, e1)"
    by (metis prod_cases5)
  note t = rc_body_True [OF b]
  show ?case
  proof (cases x)
    case Break
    then show ?thesis using "1.prems" b t by (subst (asm) rc_loop.simps) auto
  next
    case (Return v)
    then show ?thesis using "1.prems" b t by (subst (asm) rc_loop.simps) auto
  next
    case Next
    show ?thesis
    proof (cases "read_retry - 1 \<noteq> 0")
      case True
      have "rc_loop sdp u1 (read_retry - 1) (tick + 1) b1 (ev @ e1) = (ret, out', rr', b', evs)"
        using "1.prems" b Next True by (subst (asm) rc_loop.simps) simp
      moreover have "Exec READ_CAPACITY_10 \<notin> set (ev @ e1)" using t "1.prems" by simp
      ultimately show ?thesis
        using "1.IH" b Next True t "1.prems"(2) by auto
    next
      case False
      then show ?thesis using "1.prems" b t Next by (subst (asm) rc_loop.simps) auto
    qed
  qed
qed

text \<open>
  Whatever the device answers, \<^verbatim>\<open>use_cap16\<close> stays true: the only assignment to it is
  guarded by its being false already.  So \<^verbatim>\<open>READ CAPACITY (10)\<close> is never sent.
\<close>

lemma orc_no_cap10: "Exec READ_CAPACITY_10 \<notin> set (snd (opportunistic_read_capacity km sdp))"
proof (cases km)
  case None
  then show ?thesis by (simp add: opportunistic_read_capacity_def)
next
  case (Some buf)
  obtain ret o1 r1 b1 e1 where l: "rc_loop sdp True SCSI_CAP_MAX_RETRIES 0 buf [] = (ret, o1, r1, b1, e1)"
    by (metis prod_cases5)
  from rc_loop_True [OF l] have "Exec READ_CAPACITY_10 \<notin> set e1" by simp
  then show ?thesis using Some l
    by (cases ret) (simp_all add: opportunistic_read_capacity_def)
qed

lemma orc_result:
  "fst (opportunistic_read_capacity km sdp) \<in> {- EFAULT, - EINVAL, - EIO}
   \<or> (\<exists>b. fst (opportunistic_read_capacity km sdp) = size_mb b)"
proof (cases km)
  case None
  then show ?thesis by (simp add: opportunistic_read_capacity_def)
next
  case (Some buf)
  obtain ret o1 r1 b1 e1 where l: "rc_loop sdp True SCSI_CAP_MAX_RETRIES 0 buf [] = (ret, o1, r1, b1, e1)"
    by (metis prod_cases5)
  from rc_loop_True [OF l] have "\<forall>v. ret = Some v \<longrightarrow> v = - EINVAL" by simp
  then show ?thesis using Some l
    by (cases ret) (auto simp add: opportunistic_read_capacity_def)
qed


lemma size_mb_rc16_buffer: "size_mb (rc16_buffer r b) = size_mb (rc16_buffer r b')"
  by (simp add: size_mb_def rc16_buffer_def get_unaligned_be64_def get_unaligned_be32_def
      dma_from_device_def memset0_def SCSI_RC16_LEN_def)

lemma orc_success_after_soft:
  assumes "n < SCSI_CAP_MAX_RETRIES"
    and "\<forall>i<n. soft_failure (sdev_execute sdp i READ_CAPACITY_16)"
    and "reply_out (sdev_execute sdp n READ_CAPACITY_16) = 0"
  shows "fst (opportunistic_read_capacity (Some buf) sdp) =
           size_mb (rc16_buffer (sdev_execute sdp n READ_CAPACITY_16) buf0)"
proof -
  from rc_loop_skip_soft [of n sdp 0 SCSI_CAP_MAX_RETRIES buf "[]"] assms
  obtain buf' ev' where
    l: "rc_loop sdp True SCSI_CAP_MAX_RETRIES 0 buf [] =
          rc_loop sdp True (SCSI_CAP_MAX_RETRIES - n) n buf' ev'"
    by auto
  have "rc_loop sdp True (SCSI_CAP_MAX_RETRIES - n) n buf' ev' =
          (None, 0, SCSI_CAP_MAX_RETRIES - n, rc16_buffer (sdev_execute sdp n READ_CAPACITY_16) buf',
           ev' @ [Exec READ_CAPACITY_16])"
    by (subst rc_loop.simps) (simp add: rc_body_success [OF assms(3)])
  with l show ?thesis
    by (simp add: opportunistic_read_capacity_def size_mb_rc16_buffer [of _ buf' buf0])
qed

lemma rc_loop_last_soft:
  assumes "soft_failure (sdev_execute sdp tick READ_CAPACITY_16)" "rr - 1 = 0"
  shows "\<exists>b e. rc_loop sdp True rr tick buf ev =
           (None, reply_out (sdev_execute sdp tick READ_CAPACITY_16), 0, b, e)"
proof -
  obtain e0 where b: "rc_body sdp True rr tick buf =
           (Next, True, reply_out (sdev_execute sdp tick READ_CAPACITY_16),
            rc16_buffer (sdev_execute sdp tick READ_CAPACITY_16) buf,
            Exec READ_CAPACITY_16 # e0)"
    using rc_body_soft [OF assms(1), of rr buf] by blast
  show ?thesis using assms(2) by (subst rc_loop.simps) (simp add: b)
qed

lemma orc_exhausted:
  assumes "\<forall>i<SCSI_CAP_MAX_RETRIES. soft_failure (sdev_execute sdp i READ_CAPACITY_16)"
  shows "fst (opportunistic_read_capacity (Some buf) sdp) = - EIO"
proof -
  define n where "n = SCSI_CAP_MAX_RETRIES - 1"
  have n: "n < SCSI_CAP_MAX_RETRIES" by (simp add: n_def SCSI_CAP_MAX_RETRIES_def)
  have "\<forall>i<n. soft_failure (sdev_execute sdp (0 + i) READ_CAPACITY_16)"
    using assms n by simp
  from rc_loop_skip_soft [OF this n, of buf "[]"]
  obtain buf' ev' where
    l: "rc_loop sdp True SCSI_CAP_MAX_RETRIES 0 buf [] =
          rc_loop sdp True (SCSI_CAP_MAX_RETRIES - n) n buf' ev'"
    by auto
  have one: "SCSI_CAP_MAX_RETRIES - n - 1 = 0" by (simp add: n_def)
  have s: "soft_failure (sdev_execute sdp n READ_CAPACITY_16)" using assms n by blast
  then have ne: "reply_out (sdev_execute sdp n READ_CAPACITY_16) \<noteq> 0"
    by (simp add: soft_failure_def)
  from rc_loop_last_soft [OF s one, of buf' ev'] obtain b e where
    "rc_loop sdp True (SCSI_CAP_MAX_RETRIES - n) n buf' ev' =
       (None, reply_out (sdev_execute sdp n READ_CAPACITY_16), 0, b, e)"
    by blast
  with l ne show ?thesis
    by (simp add: opportunistic_read_capacity_def)
qed

section \<open>The capacity read: claims\<close>

text \<open>
  C6.  A capacity query that receives a hard refusal (a failed command whose valid sense
  data has the key ILLEGAL REQUEST, additional sense code 0x20 or 0x24 and qualifier 0)
  fails at once with \<open>-EINVAL\<close>: whatever number \<open>j\<close> of soft failures came before
  it, the refused command is the last one sent, \<open>j + 1\<close> commands were sent in all, and
  nothing but the error message follows it, so no delay.  When the first reply is the
  refusal, one command and one message are all the call does.
\<close>

theorem hard_refusal_fails_at_once:
  assumes "j < SCSI_CAP_MAX_RETRIES"
    and "\<forall>i<j. soft_failure (sdev_execute sdp i READ_CAPACITY_16)"
    and "hard_refused (sdev_execute sdp j READ_CAPACITY_16)"
  shows "\<exists>pre. opportunistic_read_capacity (Some buf) sdp =
            (- EINVAL, pre @ [Exec READ_CAPACITY_16, Log Err Drive_refused_to_provide_capacity])
          \<and> length (filter is_exec pre) = j \<and> (j = 0 \<longrightarrow> pre = [])"
proof -
  from rc_loop_skip_soft [of j sdp 0 SCSI_CAP_MAX_RETRIES buf "[]"] assms
  obtain buf' ev' where
    l: "rc_loop sdp True SCSI_CAP_MAX_RETRIES 0 buf [] =
          rc_loop sdp True (SCSI_CAP_MAX_RETRIES - j) j buf' ev'"
    and len: "length (filter is_exec ev') = j" and z: "j = 0 \<longrightarrow> ev' = []"
    by auto
  have "rc_loop sdp True (SCSI_CAP_MAX_RETRIES - j) j buf' ev' =
          (Some (- EINVAL), reply_out (sdev_execute sdp j READ_CAPACITY_16),
           SCSI_CAP_MAX_RETRIES - j, rc16_buffer (sdev_execute sdp j READ_CAPACITY_16) buf',
           ev' @ [Exec READ_CAPACITY_16, Log Err Drive_refused_to_provide_capacity])"
    by (subst rc_loop.simps) (simp add: rc_body_hard [OF assms(3)])
  with l len z show ?thesis
    by (simp add: opportunistic_read_capacity_def)
qed

theorem hard_refusal_fails_at_once_witness:
  "(1::nat) < SCSI_CAP_MAX_RETRIES
   \<and> soft_failure (sdev_execute busy_then_refusing_disk 0 READ_CAPACITY_16)
   \<and> hard_refused (sdev_execute busy_then_refusing_disk 1 READ_CAPACITY_16)
   \<and> (\<exists>pre. opportunistic_read_capacity (Some (\<lambda>i. 0)) busy_then_refusing_disk =
            (- EINVAL, pre @ [Exec READ_CAPACITY_16, Log Err Drive_refused_to_provide_capacity])
          \<and> length (filter is_exec pre) = 1)"
proof -
  have h1: "(1::nat) < SCSI_CAP_MAX_RETRIES" by (simp add: SCSI_CAP_MAX_RETRIES_def)
  have h2: "\<forall>i<1. soft_failure (sdev_execute busy_then_refusing_disk i READ_CAPACITY_16)"
    by (simp add: busy_then_refusing_disk_def plain_disk_def reply_busy_def soft_failure_def
        hard_refused_def hard_refusal_def ILLEGAL_REQUEST_def)
  have h3: "hard_refused (sdev_execute busy_then_refusing_disk 1 READ_CAPACITY_16)"
    by (simp add: busy_then_refusing_disk_def plain_disk_def reply_refused_def
        hard_refused_def hard_refusal_def ILLEGAL_REQUEST_def)
  from hard_refusal_fails_at_once [OF h1 h2 h3, of "\<lambda>i. 0"] h1 h2 h3
  show ?thesis by auto
qed

text \<open>
  C7.  When the first \<open>N\<close> replies, \<open>N\<close> below the budget of 3, are busy replies and
  the next one is a success, the call returns what a device returns that gives that
  successful reply at once; and when every one of the 3 attempts fails without a hard
  refusal, the call returns \<open>-EIO\<close>.
\<close>

theorem busy_within_budget_same_value:
  "(N < SCSI_CAP_MAX_RETRIES
      \<and> (\<forall>i<N. transient_busy (sdev_execute sdp i READ_CAPACITY_16))
      \<and> reply_out (sdev_execute sdp N READ_CAPACITY_16) = 0
      \<and> sdev_execute sdp0 0 READ_CAPACITY_16 = sdev_execute sdp N READ_CAPACITY_16
    \<longrightarrow> fst (opportunistic_read_capacity (Some buf) sdp) =
          fst (opportunistic_read_capacity (Some buf0) sdp0)
        \<and> fst (opportunistic_read_capacity (Some buf) sdp) =
          size_mb (rc16_buffer (sdev_execute sdp N READ_CAPACITY_16) buf))
   \<and> ((\<forall>i<SCSI_CAP_MAX_RETRIES. soft_failure (sdev_execute sdp' i READ_CAPACITY_16))
    \<longrightarrow> fst (opportunistic_read_capacity (Some buf) sdp') = - EIO)"
proof (intro conjI impI)
  assume a: "N < SCSI_CAP_MAX_RETRIES
      \<and> (\<forall>i<N. transient_busy (sdev_execute sdp i READ_CAPACITY_16))
      \<and> reply_out (sdev_execute sdp N READ_CAPACITY_16) = 0
      \<and> sdev_execute sdp0 0 READ_CAPACITY_16 = sdev_execute sdp N READ_CAPACITY_16"
  then have soft: "\<forall>i<N. soft_failure (sdev_execute sdp i READ_CAPACITY_16)"
    by (simp add: transient_busy_soft)
  have slow: "fst (opportunistic_read_capacity (Some buf) sdp) =
                size_mb (rc16_buffer (sdev_execute sdp N READ_CAPACITY_16) buf)"
    using a soft by (intro orc_success_after_soft) simp_all
  have "0 < SCSI_CAP_MAX_RETRIES" by (simp add: SCSI_CAP_MAX_RETRIES_def)
  moreover have "\<forall>i<0. soft_failure (sdev_execute sdp0 i READ_CAPACITY_16)" by simp
  moreover have "reply_out (sdev_execute sdp0 0 READ_CAPACITY_16) = 0" using a by simp
  ultimately have "fst (opportunistic_read_capacity (Some buf0) sdp0) =
                size_mb (rc16_buffer (sdev_execute sdp0 0 READ_CAPACITY_16) buf)"
    by (rule orc_success_after_soft)
  with slow a show "fst (opportunistic_read_capacity (Some buf) sdp) =
          fst (opportunistic_read_capacity (Some buf0) sdp0)" by simp
  show "fst (opportunistic_read_capacity (Some buf) sdp) =
          size_mb (rc16_buffer (sdev_execute sdp N READ_CAPACITY_16) buf)" by (rule slow)
next
  assume "\<forall>i<SCSI_CAP_MAX_RETRIES. soft_failure (sdev_execute sdp' i READ_CAPACITY_16)"
  then show "fst (opportunistic_read_capacity (Some buf) sdp') = - EIO"
    by (rule orc_exhausted)
qed

theorem busy_within_budget_same_value_witness:
  "(2::nat) < SCSI_CAP_MAX_RETRIES
   \<and> transient_busy (sdev_execute spinning_up_disk 0 READ_CAPACITY_16)
   \<and> transient_busy (sdev_execute spinning_up_disk 1 READ_CAPACITY_16)
   \<and> reply_out (sdev_execute spinning_up_disk 2 READ_CAPACITY_16) = 0
   \<and> sdev_execute plain_disk 0 READ_CAPACITY_16 = sdev_execute spinning_up_disk 2 READ_CAPACITY_16
   \<and> soft_failure (sdev_execute stuck_disk 0 READ_CAPACITY_16)
   \<and> soft_failure (sdev_execute stuck_disk 1 READ_CAPACITY_16)
   \<and> soft_failure (sdev_execute stuck_disk 2 READ_CAPACITY_16)
   \<and> fst (opportunistic_read_capacity (Some (\<lambda>i. 0)) spinning_up_disk) =
       fst (opportunistic_read_capacity (Some (\<lambda>i. 0)) plain_disk)
   \<and> fst (opportunistic_read_capacity (Some (\<lambda>i. 0)) spinning_up_disk) = 100
   \<and> fst (opportunistic_read_capacity (Some (\<lambda>i. 0)) stuck_disk) = - EIO"
proof -
  have h1: "(2::nat) < SCSI_CAP_MAX_RETRIES" by (simp add: SCSI_CAP_MAX_RETRIES_def)
  have h2: "\<forall>i<2. transient_busy (sdev_execute spinning_up_disk i READ_CAPACITY_16)"
    by (simp add: spinning_up_disk_def plain_disk_def reply_busy_def transient_busy_def
        drive_busy_def UNIT_ATTENTION_def)
  have h3: "reply_out (sdev_execute spinning_up_disk 2 READ_CAPACITY_16) = 0"
    by (simp add: spinning_up_disk_def plain_disk_def reply_100MiB_def)
  have h4: "sdev_execute plain_disk 0 READ_CAPACITY_16 =
              sdev_execute spinning_up_disk 2 READ_CAPACITY_16"
    by (simp add: spinning_up_disk_def plain_disk_def)
  have h5: "\<forall>i<SCSI_CAP_MAX_RETRIES. soft_failure (sdev_execute stuck_disk i READ_CAPACITY_16)"
    by (simp add: stuck_disk_def plain_disk_def reply_busy_def soft_failure_def
        hard_refused_def hard_refusal_def ILLEGAL_REQUEST_def)
  have v: "size_mb (rc16_buffer (sdev_execute spinning_up_disk 2 READ_CAPACITY_16) (\<lambda>i. 0)) = 100"
    by (simp add: spinning_up_disk_def plain_disk_def reply_100MiB_def size_mb_def
        rc16_buffer_def get_unaligned_be64_def get_unaligned_be32_def dma_from_device_def
        memset0_def SCSI_RC16_LEN_def)
  from busy_within_budget_same_value
         [of 2 spinning_up_disk plain_disk "\<lambda>i. 0" "\<lambda>i. 0" stuck_disk] h1 h2 h3 h4 h5 v
  show ?thesis by simp
qed

text \<open>
  C1.  The claim is that a device which refuses \<^verbatim>\<open>READ CAPACITY (16)\<close> for good and
  answers \<^verbatim>\<open>READ CAPACITY (10)\<close> gets its capacity read by the legacy command.  On
  \<open>legacy_only_disk\<close>, such a device, the call sends the 16-byte command once and returns
  \<open>-EINVAL\<close>; the 10-byte command, which would have succeeded, is not sent.
\<close>

theorem refused_modern_query_is_not_downgraded:
  "hard_refused (sdev_execute legacy_only_disk 0 READ_CAPACITY_16)
   \<and> fst (scsi_read_cap10 legacy_only_disk 1 (\<lambda>i. 0)) = 0
   \<and> opportunistic_read_capacity (Some (\<lambda>i. 0)) legacy_only_disk =
       (- EINVAL, [Exec READ_CAPACITY_16, Log Err Drive_refused_to_provide_capacity])"
  by (simp add: opportunistic_read_capacity_def legacy_only_disk_def plain_disk_def
      reply_refused_def reply10_100MiB_def rc_body_def rc_loop.simps scsi_read_cap16_def
      scsi_read_cap10_def hard_refused_def hard_refusal_def ILLEGAL_REQUEST_def
      SCSI_CAP_MAX_RETRIES_def)

text \<open>
  Had the 10-byte command been sent after the refusal, its eight bytes of data would
  still be read as \<^verbatim>\<open>READ CAPACITY (16)\<close> data (address in bytes 0 to 7, block size in
  bytes 8 to 11): for the 100 MiB of \<open>legacy_only_disk\<close> the size computed is 0.
\<close>

lemma legacy_reply_read_with_rc16_layout:
  "size_mb (fst (snd (scsi_read_cap10 legacy_only_disk 1 (rc16_buffer reply_refused b)))) = 0"
  by (simp add: scsi_read_cap10_def legacy_only_disk_def plain_disk_def reply10_100MiB_def
      reply_refused_def rc16_buffer_def size_mb_def get_unaligned_be64_def
      get_unaligned_be32_def dma_from_device_def memset0_def SCSI_RC16_LEN_def)

section \<open>The classifier and the error pointers: lemmas\<close>

lemma small_int_signed:
  fixes k :: int
  assumes "k < 2 ^ 44" "0 \<le> k"
  shows "signed_take_bit 63 k = k"
proof (rule signed_take_bit_int_eq_self)
  show "- (2 ^ 63) \<le> k" using assms by simp
  show "k < 2 ^ 63" using assms by simp
qed

lemma size_mb_range: "0 \<le> size_mb b \<and> size_mb b < 2 ^ 44"
proof -
  define x :: "64 word" where "x = (get_unaligned_be64 b 0 + 1) * ucast (get_unaligned_be32 b 8)"
  have u: "uint (x div 1024 div 1024) = uint x div 1024 div 1024"
    by (simp add: uint_div)
  have "uint x < 2 ^ 64" using uint_lt2p [of x] by simp
  then have lt: "uint (x div 1024 div 1024) < 2 ^ 44" unfolding u by simp
  have ge: "0 \<le> uint (x div 1024 div 1024)" by simp
  have "signed_take_bit 63 (uint (x div 1024 div 1024)) = uint (x div 1024 div 1024)"
    using lt ge by (intro small_int_signed)
  then have "sint (x div 1024 div 1024) = uint (x div 1024 div 1024)"
    by (simp add: sint_uint)
  then have "size_mb b = uint (x div 1024 div 1024)"
    by (simp add: size_mb_def Let_def x_def)
  with lt show ?thesis by simp
qed

lemma gt_threshold_iff:
  assumes "0 \<le> c" "c < 2 ^ 44"
  shows "(word_of_int c :: 64 word) > m \<longleftrightarrow> c > uint m"
proof -
  have "uint (word_of_int c :: 64 word) = c"
    using assms by (simp add: uint_word_of_int)
  then show ?thesis by (simp add: word_less_def)
qed

lemma orc_nonneg_small:
  assumes "0 \<le> fst (opportunistic_read_capacity km sdp)"
  shows "fst (opportunistic_read_capacity km sdp) < 2 ^ 44"
proof -
  from orc_result [of km sdp] assms obtain b where
    "fst (opportunistic_read_capacity km sdp) = size_mb b"
    by (auto simp: EFAULT_def EINVAL_def EIO_def)
  then show ?thesis using size_mb_range [of b] by simp
qed

lemma is_shim_target_world:
  "\<exists>ev. snd (is_shim_target sdp w) = w\<lparr>events := events w @ ev\<rparr>"
  by (auto simp: is_shim_target_def pr_loc_def Let_def split: prod.splits)

lemma is_shim_target_iff:
  "fst (is_shim_target sdp w) \<longleftrightarrow>
     0 \<le> fst (opportunistic_read_capacity (kmalloc w) sdp)
     \<and> fst (opportunistic_read_capacity (kmalloc w) sdp) \<le> uint (max_dom_size_mib w)
     \<and> \<not> device_mapped w"
proof (cases "0 \<le> fst (opportunistic_read_capacity (kmalloc w) sdp)")
  case False
  then show ?thesis
    by (auto simp: is_shim_target_def pr_loc_def Let_def split: prod.splits)
next
  case True
  note g = gt_threshold_iff [OF True orc_nonneg_small [OF True], of "max_dom_size_mib w"]
  show ?thesis using True g
    by (auto simp: is_shim_target_def pr_loc_def Let_def split: prod.splits)
qed

lemma IS_ERR_negative:
  assumes "IS_ERR p"
  shows "PTR_ERR p < 0"
proof -
  define y where "y = signed_take_bit 63 (uint p)"
  have "uint (- 4095 :: 64 word) \<le> uint p"
    using assms by (simp add: IS_ERR_def word_le_def)
  then have ge: "2 ^ 63 \<le> uint p" by simp
  have "y \<le> uint p - 2 ^ Suc 63"
    unfolding y_def using ge by (rule signed_take_bit_int_less_eq)
  moreover have "uint p < 2 ^ 64" using uint_lt2p [of p] by simp
  ultimately have "y < 0" by simp
  moreover have "PTR_ERR p = y" by (simp add: PTR_ERR_def sint_uint y_def)
  ultimately show ?thesis by simp
qed

section \<open>The classifier: claims\<close>

lemma plain_disk_capacity:
  "opportunistic_read_capacity (Some (\<lambda>i. 0)) plain_disk = (100, [Exec READ_CAPACITY_16, Kfree])"
  by (simp add: opportunistic_read_capacity_def plain_disk_def reply_100MiB_def rc_body_def
      rc_loop.simps scsi_read_cap16_def size_mb_def get_unaligned_be64_def get_unaligned_be32_def
      dma_from_device_def memset0_def SCSI_RC16_LEN_def SCSI_CAP_MAX_RETRIES_def)

text \<open>
  C2.  \<^verbatim>\<open>is_shim_target\<close> answers true exactly when the capacity read succeeds (its result
  is not negative), the capacity is at most \<open>max_dom_size_mib\<close>, and no device has been
  mapped before.  So a failed read or a capacity above the threshold gives false whatever
  \<open>device_mapped\<close> is, and once \<open>device_mapped\<close> is set every answer is false.
\<close>

theorem is_shim_target_eligible_iff:
  "fst (is_shim_target sdp w) \<longleftrightarrow>
     0 \<le> fst (opportunistic_read_capacity (kmalloc w) sdp)
     \<and> fst (opportunistic_read_capacity (kmalloc w) sdp) \<le> uint (max_dom_size_mib w)
     \<and> \<not> device_mapped w"
  by (rule is_shim_target_iff)

theorem is_shim_target_eligible_iff_witness:
  "fst (is_shim_target plain_disk installed_world)
   \<and> fst (opportunistic_read_capacity (kmalloc installed_world) plain_disk) = 100
   \<and> uint (max_dom_size_mib installed_world) = 200
   \<and> \<not> fst (is_shim_target plain_disk mapped_world)
   \<and> \<not> fst (is_shim_target plain_disk (installed_world\<lparr>max_dom_size_mib := 99\<rparr>))
   \<and> \<not> fst (is_shim_target stuck_disk installed_world)"
proof -
  have k: "kmalloc installed_world = Some (\<lambda>i. 0)" "kmalloc mapped_world = Some (\<lambda>i. 0)"
    by (simp_all add: installed_world_def booted_world_def mapped_world_def)
  have s: "fst (opportunistic_read_capacity (Some (\<lambda>i. 0)) stuck_disk) = - EIO"
    by (rule orc_exhausted)
      (simp add: stuck_disk_def plain_disk_def reply_busy_def soft_failure_def
        hard_refused_def hard_refusal_def ILLEGAL_REQUEST_def)
  show ?thesis
    using is_shim_target_eligible_iff [of plain_disk installed_world]
      is_shim_target_eligible_iff [of plain_disk mapped_world]
      is_shim_target_eligible_iff [of plain_disk "installed_world\<lparr>max_dom_size_mib := 99\<rparr>"]
      is_shim_target_eligible_iff [of stuck_disk installed_world] s
    by (simp add: k plain_disk_capacity EIO_def)
      (simp add: installed_world_def booted_world_def mapped_world_def)
qed

section \<open>The intercepting probe: claims\<close>

lemma is_shim_target_fields:
  assumes "is_shim_target sdp w = (b, w1)"
  shows "org_sd_probe w1 = org_sd_probe w \<and> devices w1 = devices w
         \<and> device_mapped w1 = device_mapped w \<and> max_dom_size_mib w1 = max_dom_size_mib w
         \<and> drv_probe w1 = drv_probe w \<and> driver_find_sd w1 = driver_find_sd w
         \<and> scsi_bus w1 = scsi_bus w \<and> kmalloc w1 = kmalloc w"
proof -
  from is_shim_target_world [of sdp w] assms obtain ev where
    "w1 = w\<lparr>events := events w @ ev\<rparr>" by auto
  then show ?thesis by simp
qed

text \<open>
  C3.  While the shim is registered with a kernel function \<open>f\<close> saved as the original
  probe, \<^verbatim>\<open>sd_probe_shim\<close> on any device ends in the call of \<open>f\<close> on that device and
  returns what \<open>f\<close> returns.  For a device that is not a SATA disk the call of \<open>f\<close>
  happens in the state the shim was entered in, but for one debug message: no global and
  no device has changed.
\<close>

theorem sd_probe_shim_delegates:
  assumes "org_sd_probe w = Some (Kernel_fn f)"
  shows "\<exists>w'. sd_probe_shim k dev w = Some (call_fn k f dev w')
           \<and> (\<not> is_sata_disk (devices w dev)
                \<longrightarrow> w' = w\<lparr>events := events w @ [Log Dbg New_device_not_a_SATA_disk]\<rparr>)"
proof (cases "is_sata_disk (devices w dev)")
  case False
  then show ?thesis using assms
    by (simp add: sd_probe_shim_def call_org_sd_probe_def pr_loc_def)
next
  case True
  then obtain sdp where d: "devices w dev = Scsi_sdev sdp"
    by (cases "devices w dev") (simp_all add: is_sata_disk_def)
  obtain b w1 where t: "is_shim_target sdp w = (b, w1)" by (cases "is_shim_target sdp w")
  from is_shim_target_fields [OF t] assms have o: "org_sd_probe w1 = Some (Kernel_fn f)" by simp
  show ?thesis using True d t o
    by (cases b) (auto simp: sd_probe_shim_def call_org_sd_probe_def pr_loc_def Let_def)
qed

theorem sd_probe_shim_delegates_witness:
  "org_sd_probe installed_world = Some (Kernel_fn 1)
   \<and> \<not> is_sata_disk (devices installed_world 1)
   \<and> sd_probe_shim sample_kernel 1 installed_world =
       Some (call_fn sample_kernel 1 1
               (installed_world\<lparr>events := events installed_world @ [Log Dbg New_device_not_a_SATA_disk]\<rparr>))
   \<and> devices installed_world 1 = Other_dev ''host6''"
proof -
  have h1: "org_sd_probe installed_world = Some (Kernel_fn 1)"
    by (simp add: installed_world_def)
  have h2: "\<not> is_sata_disk (devices installed_world 1)"
    by (simp add: installed_world_def booted_world_def is_sata_disk_def)
  from sd_probe_shim_delegates [OF h1, of sample_kernel 1] h2
  have "sd_probe_shim sample_kernel 1 installed_world =
       Some (call_fn sample_kernel 1 1
               (installed_world\<lparr>events := events installed_world @ [Log Dbg New_device_not_a_SATA_disk]\<rparr>))"
    by auto
  then show ?thesis using h1 h2 by (simp add: installed_world_def booted_world_def)
qed

text \<open>
  C4.  For a SATA disk that \<^verbatim>\<open>is_shim_target\<close> accepts, the state in which the original
  probe is called already has the vendor and model of that device set to
  \<^verbatim>\<open>CONFIG_SYNO_SATA_DOM_VENDOR\<close> and \<^verbatim>\<open>CONFIG_SYNO_SATA_DOM_MODEL\<close> and \<open>device_mapped\<close>
  set; no other device is touched.  The witness is a disk of 100 MiB against a threshold
  of 200 MiB.
\<close>

theorem sd_probe_shim_rewrites_identity_first:
  assumes "org_sd_probe w = Some (Kernel_fn f)"
    and "devices w dev = Scsi_sdev sdp"
    and "is_sata_disk (Scsi_sdev sdp)"
    and "fst (is_shim_target sdp w)"
  shows "\<exists>w'. sd_probe_shim k dev w = Some (call_fn k f dev w')
           \<and> devices w' dev =
               Scsi_sdev (sdp\<lparr>sdev_vendor := CONFIG_SYNO_SATA_DOM_VENDOR k,
                                sdev_model := CONFIG_SYNO_SATA_DOM_MODEL k\<rparr>)
           \<and> device_mapped w'
           \<and> (\<forall>a. a \<noteq> dev \<longrightarrow> devices w' a = devices w a)"
proof -
  obtain w1 where t: "is_shim_target sdp w = (True, w1)"
    using assms(4) by (cases "is_shim_target sdp w") simp
  from is_shim_target_fields [OF t] assms(1)
  have o: "org_sd_probe w1 = Some (Kernel_fn f)" and d: "devices w1 = devices w" by simp_all
  show ?thesis using assms(2,3) t o d
    by (simp add: sd_probe_shim_def call_org_sd_probe_def pr_loc_def Let_def)
      (rule exI, rule conjI, rule refl, simp)
qed

theorem sd_probe_shim_rewrites_identity_first_witness:
  "org_sd_probe installed_world = Some (Kernel_fn 1)
   \<and> devices installed_world 0 = Scsi_sdev plain_disk
   \<and> is_sata_disk (Scsi_sdev plain_disk)
   \<and> fst (is_shim_target plain_disk installed_world)
   \<and> fst (opportunistic_read_capacity (kmalloc installed_world) plain_disk) = 100
   \<and> max_dom_size_mib installed_world = 200
   \<and> (\<exists>w'. sd_probe_shim sample_kernel 0 installed_world = Some (call_fn sample_kernel 1 0 w')
           \<and> devices w' 0 =
               Scsi_sdev (plain_disk\<lparr>sdev_vendor := ''SATADOM-'', sdev_model := ''TYPE D 3SE''\<rparr>)
           \<and> device_mapped w')"
proof -
  have h1: "org_sd_probe installed_world = Some (Kernel_fn 1)"
    by (simp add: installed_world_def)
  have h2: "devices installed_world 0 = Scsi_sdev plain_disk"
    by (simp add: installed_world_def booted_world_def)
  have h3: "is_sata_disk (Scsi_sdev plain_disk)"
    by (simp add: is_sata_disk_def plain_disk_def TYPE_DISK_def)
  have k: "kmalloc installed_world = Some (\<lambda>i. 0)"
    by (simp add: installed_world_def booted_world_def)
  have m: "max_dom_size_mib installed_world = 200" "\<not> device_mapped installed_world"
    by (simp_all add: installed_world_def booted_world_def)
  have h4: "fst (is_shim_target plain_disk installed_world)"
    by (simp add: is_shim_target_iff k m plain_disk_capacity)
  from sd_probe_shim_rewrites_identity_first [OF h1 h2 h3 h4, of sample_kernel]
  obtain w' where "sd_probe_shim sample_kernel 0 installed_world = Some (call_fn sample_kernel 1 0 w')"
    "devices w' 0 = Scsi_sdev (plain_disk\<lparr>sdev_vendor := ''SATADOM-'', sdev_model := ''TYPE D 3SE''\<rparr>)"
    "device_mapped w'"
    by (auto simp: sample_kernel_def)
  then have "\<exists>w'. sd_probe_shim sample_kernel 0 installed_world = Some (call_fn sample_kernel 1 0 w')
           \<and> devices w' 0 =
               Scsi_sdev (plain_disk\<lparr>sdev_vendor := ''SATADOM-'', sdev_model := ''TYPE D 3SE''\<rparr>)
           \<and> device_mapped w'" by blast
  then show ?thesis using h1 h2 h3 h4 m(1) by (simp add: k plain_disk_capacity)
qed

section \<open>Devices that were there before: claims\<close>

lemma on_existing_device_mapped:
  assumes "device_mapped w"
  shows "\<exists>ev. on_existing_device k dev w = (0, w\<lparr>events := events w @ ev\<rparr>)"
proof (cases "is_sata_disk (devices w dev)")
  case False
  then show ?thesis
    by (simp add: on_existing_device_def pr_loc_def) (rule exI, rule refl)
next
  case True
  then obtain sdp where d: "devices w dev = Scsi_sdev sdp"
    by (cases "devices w dev") (simp_all add: is_sata_disk_def)
  obtain b w1 where t: "is_shim_target sdp w = (b, w1)" by (cases "is_shim_target sdp w")
  have "\<not> fst (is_shim_target sdp w)" using assms by (simp add: is_shim_target_iff)
  with t have b: "b = False" by simp
  from is_shim_target_world [of sdp w] t obtain ev where "w1 = w\<lparr>events := events w @ ev\<rparr>"
    by auto
  then show ?thesis using True d t b
    by (simp add: on_existing_device_def pr_loc_def) (rule exI, rule refl)
qed

lemma bus_for_each_dev_mapped:
  assumes "device_mapped w"
  shows "\<exists>ev. bus_for_each_dev (on_existing_device k) devs w = (0, w\<lparr>events := events w @ ev\<rparr>)"
  using assms
proof (induction devs arbitrary: w)
  case Nil
  show ?case by (rule exI [of _ "[]"]) simp
next
  case (Cons dev rest)
  from on_existing_device_mapped [OF Cons.prems, of k dev] obtain ev1 where
    s: "on_existing_device k dev w = (0, w\<lparr>events := events w @ ev1\<rparr>)" by blast
  have "device_mapped (w\<lparr>events := events w @ ev1\<rparr>)" using Cons.prems by simp
  from Cons.IH [OF this] obtain ev2 where
    "bus_for_each_dev (on_existing_device k) rest (w\<lparr>events := events w @ ev1\<rparr>) =
       (0, w\<lparr>events := events w @ ev1 @ ev2\<rparr>)" by auto
  then show ?case using s by simp (rule exI, rule refl)
qed













lemma reprobe_on_bus: "a \<in> set (scsi_bus w) \<Longrightarrow> reprobe a w = w"
  by (simp add: reprobe_def)









text \<open>
  The whole of a registration on a bus with two disks of 100 MiB and a threshold of
  200 MiB, with a kernel that probes a removed device again during the rescan: the first
  disk is removed, probed again and renamed, the device that is no disk is skipped, and
  the second disk gets the warning and keeps its vendor and model.
\<close>

lemma two_eligible_disks_scenario:
  "outcome (register_sata_boot_shim reprobing_kernel sata_config two_disk_world) =
     Some (0, (''SATADOM-'', ''TYPE D 3SE''), (''ATA'', ''DATA DISK''), True, [1, 2, 0],
       [Log Dbg (Probing_SATA_disk 0 0 ''QEMU'' ''HARDDISK''),
        Exec READ_CAPACITY_16, Kfree,
        Log Dbg (Capacity_is_a_shimmable_target 100 200),
        Log Info (Device_already_connected_reconnecting ''QEMU'' ''HARDDISK''),
        Log Dbg (Removing_device_from_host 6),
        Log Dbg (Triggering_template_based_rescan 6),
        Log Dbg (Probing_SATA_disk 0 0 ''QEMU'' ''HARDDISK''),
        Exec READ_CAPACITY_16, Kfree,
        Log Dbg (Capacity_is_a_shimmable_target 100 200),
        Log Dbg (Shimming_device ''SATADOM-'' ''TYPE D 3SE''),
        Log Dbg Existing_device_not_a_SATA_disk,
        Log Dbg (Probing_SATA_disk 1 0 ''ATA'' ''DATA DISK''),
        Exec READ_CAPACITY_16, Kfree,
        Log Wrn (Boot_device_was_already_shimmed 100 200),
        Log Dbg Device_is_not_a_shim_target,
        Log Dbg (Bus_for_each_dev_returned 0), Log Dbg Shim_registered])"
  by code_simp

section \<open>Registering and unregistering: claims\<close>

lemma probe_existing_devices_mapped:
  assumes "device_mapped w"
  shows "\<exists>ev. probe_existing_devices k w = w\<lparr>events := events w @ ev\<rparr>"
proof -
  from bus_for_each_dev_mapped [OF assms, of k "scsi_bus w"] obtain ev where
    "bus_for_each_dev (on_existing_device k) (scsi_bus w) w = (0, w\<lparr>events := events w @ ev\<rparr>)"
    by blast
  then show ?thesis
    by (simp add: probe_existing_devices_def pr_loc_def) (rule exI, rule refl)
qed

lemma register_when_mapped:
  assumes "device_mapped w" "register_sata_boot_shim k cfg w = Some (0, w'')"
  shows "device_mapped w'' \<and> devices w'' = devices w
         \<and> max_dom_size_mib w'' = dom_size_mib cfg \<and> drv_probe w'' = Some Sd_probe_shim"
proof -
  let ?w3 = "w\<lparr>max_dom_size_mib := dom_size_mib cfg, org_sd_probe := drv_probe w,
                drv_probe := Some Sd_probe_shim\<rparr>"
  have m: "device_mapped ?w3" using assms(1) by simp
  from probe_existing_devices_mapped [OF m, of k] obtain ev where
    p: "probe_existing_devices k ?w3 = ?w3\<lparr>events := events ?w3 @ ev\<rparr>" by blast
  have "\<not> IS_ERR (driver_find_sd w) \<or> PTR_ERR (driver_find_sd w) < 0"
    using IS_ERR_negative by blast
  then show ?thesis using assms p
    by (auto simp: register_sata_boot_shim_def pr_loc_def Let_def EINVAL_def EEXIST_def
        split: if_splits)
qed

text \<open>
  C9.  An unregister that returns 0 was called with an original probe saved; it puts that
  probe back into the driver, sets \<open>org_sd_probe\<close> to null and \<open>max_dom_size_mib\<close> to
  0, and leaves \<open>device_mapped\<close> and the devices as they were.  If a device had been
  mapped, a register that succeeds afterwards still ends with \<open>device_mapped\<close> set and
  the devices untouched, and \<^verbatim>\<open>is_shim_target\<close> refuses every device.
\<close>

theorem unregister_keeps_device_mapped:
  assumes "unregister_sata_boot_shim w = Some (0, w')"
  shows "org_sd_probe w \<noteq> None \<and> drv_probe w' = org_sd_probe w \<and> org_sd_probe w' = None
         \<and> max_dom_size_mib w' = 0 \<and> device_mapped w' = device_mapped w
         \<and> devices w' = devices w
         \<and> (device_mapped w \<and> register_sata_boot_shim k cfg w' = Some (0, w'')
              \<longrightarrow> device_mapped w'' \<and> devices w'' = devices w
                  \<and> \<not> fst (is_shim_target sdp w''))"
proof -
  have e: "\<not> IS_ERR (driver_find_sd w) \<or> PTR_ERR (driver_find_sd w) < 0"
    using IS_ERR_negative by blast
  have u: "org_sd_probe w \<noteq> None \<and> drv_probe w' = org_sd_probe w \<and> org_sd_probe w' = None
         \<and> max_dom_size_mib w' = 0 \<and> device_mapped w' = device_mapped w
         \<and> devices w' = devices w"
    using assms e
    by (auto simp: unregister_sata_boot_shim_def pr_loc_def Let_def ENOENT_def split: if_splits)
  have "device_mapped w'' \<and> devices w'' = devices w \<and> \<not> fst (is_shim_target sdp w'')"
    if "device_mapped w" "register_sata_boot_shim k cfg w' = Some (0, w'')"
  proof -
    have "device_mapped w'" using that(1) u by simp
    from register_when_mapped [OF this that(2)] u
    have "device_mapped w''" "devices w'' = devices w" by simp_all
    then show ?thesis by (simp add: is_shim_target_iff)
  qed
  with u show ?thesis by blast
qed

theorem unregister_keeps_device_mapped_witness:
  "unregister_sata_boot_shim mapped_world =
     Some (0, mapped_world\<lparr>drv_probe := Some (Kernel_fn 1), org_sd_probe := None,
                            max_dom_size_mib := 0,
                            events := [Log Dbg Shim_unregistered]\<rparr>)
   \<and> device_mapped mapped_world
   \<and> device_mapped (mapped_world\<lparr>drv_probe := Some (Kernel_fn 1), org_sd_probe := None,
                            max_dom_size_mib := 0,
                            events := [Log Dbg Shim_unregistered]\<rparr>)
   \<and> (\<exists>w''. register_sata_boot_shim sample_kernel sata_config
               (mapped_world\<lparr>drv_probe := Some (Kernel_fn 1), org_sd_probe := None,
                              max_dom_size_mib := 0,
                              events := [Log Dbg Shim_unregistered]\<rparr>) = Some (0, w'')
            \<and> device_mapped w'' \<and> \<not> fst (is_shim_target plain_disk w''))"
proof -
  let ?w' = "mapped_world\<lparr>drv_probe := Some (Kernel_fn 1), org_sd_probe := None,
                            max_dom_size_mib := 0,
                            events := [Log Dbg Shim_unregistered]\<rparr>"
  have ptr: "\<not> IS_ERR (driver_find_sd mapped_world)" "driver_find_sd mapped_world \<noteq> 0"
    by (simp_all add: mapped_world_def installed_world_def booted_world_def IS_ERR_def)
  have u: "unregister_sata_boot_shim mapped_world = Some (0, ?w')"
    using ptr
    by (simp add: unregister_sata_boot_shim_def pr_loc_def Let_def)
      (simp add: mapped_world_def installed_world_def booted_world_def)
  have m: "device_mapped mapped_world" by (simp add: mapped_world_def)
  have "\<exists>w''. register_sata_boot_shim sample_kernel sata_config ?w' = Some (0, w'')"
    using ptr by (simp add: register_sata_boot_shim_def sata_config_def Let_def)
  then obtain w'' where r: "register_sata_boot_shim sample_kernel sata_config ?w' = Some (0, w'')"
    by blast
  from unregister_keeps_device_mapped [OF u, of sample_kernel sata_config w'' plain_disk] m r
  have "device_mapped w'' \<and> \<not> fst (is_shim_target plain_disk w'')" by simp
  with r have "\<exists>w''. register_sata_boot_shim sample_kernel sata_config ?w' = Some (0, w'')
            \<and> device_mapped w'' \<and> \<not> fst (is_shim_target plain_disk w'')" by blast
  with u m show ?thesis by simp
qed

text \<open>
  C5.  The claim says that register called while registered fails with \<open>-EEXIST\<close>.  It
  does so for a configuration of type SATA; for any other type it fails with \<open>-EINVAL\<close>,
  registered or not, since the type is checked first.  With that hypothesis added: register
  while registered returns \<open>-EEXIST\<close>, unregister while not registered returns
  \<open>-ENOENT\<close>, and each leaves the state as it was but for one message in the log.
\<close>

theorem misuse_is_refused_without_change:
  "(bm_type cfg = BOOT_MEDIA_SATA \<and> org_sd_probe w \<noteq> None
      \<longrightarrow> register_sata_boot_shim k cfg w =
            Some (- EEXIST, w\<lparr>events := events w @ [Log Bug Shim_already_registered]\<rparr>))
   \<and> (org_sd_probe w = None
      \<longrightarrow> unregister_sata_boot_shim w =
            Some (- ENOENT, w\<lparr>events := events w @ [Log Bug Shim_not_registered]\<rparr>))"
  by (simp add: register_sata_boot_shim_def unregister_sata_boot_shim_def pr_loc_def)

theorem misuse_is_refused_without_change_witness:
  "bm_type sata_config = BOOT_MEDIA_SATA \<and> org_sd_probe installed_world \<noteq> None
   \<and> register_sata_boot_shim sample_kernel sata_config installed_world =
       Some (- EEXIST,
             installed_world\<lparr>events := events installed_world @ [Log Bug Shim_already_registered]\<rparr>)
   \<and> org_sd_probe booted_world = None
   \<and> unregister_sata_boot_shim booted_world =
       Some (- ENOENT,
             booted_world\<lparr>events := events booted_world @ [Log Bug Shim_not_registered]\<rparr>)"
proof -
  have h: "bm_type sata_config = BOOT_MEDIA_SATA" "org_sd_probe installed_world \<noteq> None"
    "org_sd_probe booted_world = None"
    by (simp_all add: sata_config_def installed_world_def booted_world_def)
  from misuse_is_refused_without_change [of sata_config installed_world sample_kernel]
    misuse_is_refused_without_change [of sata_config booted_world sample_kernel] h
  show ?thesis by simp
qed

text \<open>
  The claim C5 as stated fails when the shim is registered and the configuration is for
  USB: the result is \<open>-EINVAL\<close>, not \<open>-EEXIST\<close>.
\<close>

theorem install_while_installed_counterexample:
  "org_sd_probe installed_world \<noteq> None
   \<and> map_option fst (register_sata_boot_shim sample_kernel usb_config installed_world) =
       Some (- EINVAL)
   \<and> - EINVAL \<noteq> - EEXIST"
  by (simp add: register_sata_boot_shim_def usb_config_def installed_world_def EINVAL_def
      EEXIST_def)

text \<open>
  C10.  A register with a configuration whose type is not SATA returns \<open>-EINVAL\<close>
  whether or not the shim is registered; with type SATA and the shim registered it returns
  \<open>-EEXIST\<close>.  Both leave \<open>max_dom_size_mib\<close>, \<open>org_sd_probe\<close> and the probe pointer
  of the driver as they were.
\<close>

theorem device_class_checked_first:
  "(bm_type cfg \<noteq> BOOT_MEDIA_SATA
      \<longrightarrow> (\<exists>w'. register_sata_boot_shim k cfg w = Some (- EINVAL, w')
                \<and> max_dom_size_mib w' = max_dom_size_mib w
                \<and> org_sd_probe w' = org_sd_probe w \<and> drv_probe w' = drv_probe w))
   \<and> (bm_type cfg = BOOT_MEDIA_SATA \<and> org_sd_probe w \<noteq> None
      \<longrightarrow> (\<exists>w'. register_sata_boot_shim k cfg w = Some (- EEXIST, w')
                \<and> max_dom_size_mib w' = max_dom_size_mib w
                \<and> org_sd_probe w' = org_sd_probe w \<and> drv_probe w' = drv_probe w))"
  by (simp add: register_sata_boot_shim_def pr_loc_def)

theorem device_class_checked_first_witness:
  "bm_type usb_config \<noteq> BOOT_MEDIA_SATA \<and> org_sd_probe installed_world \<noteq> None
   \<and> (\<exists>w'. register_sata_boot_shim sample_kernel usb_config installed_world = Some (- EINVAL, w')
          \<and> max_dom_size_mib w' = 200 \<and> org_sd_probe w' = Some (Kernel_fn 1)
          \<and> drv_probe w' = Some Sd_probe_shim)
   \<and> bm_type sata_config = BOOT_MEDIA_SATA
   \<and> (\<exists>w'. register_sata_boot_shim sample_kernel sata_config installed_world = Some (- EEXIST, w')
          \<and> max_dom_size_mib w' = 200 \<and> org_sd_probe w' = Some (Kernel_fn 1)
          \<and> drv_probe w' = Some Sd_probe_shim)"
proof -
  have h: "bm_type usb_config \<noteq> BOOT_MEDIA_SATA" "org_sd_probe installed_world \<noteq> None"
    "bm_type sata_config = BOOT_MEDIA_SATA"
    by (simp_all add: usb_config_def sata_config_def installed_world_def)
  have f: "max_dom_size_mib installed_world = 200" "org_sd_probe installed_world = Some (Kernel_fn 1)"
    "drv_probe installed_world = Some Sd_probe_shim"
    by (simp_all add: installed_world_def)
  from device_class_checked_first [of usb_config sample_kernel installed_world]
    device_class_checked_first [of sata_config sample_kernel installed_world] h
  show ?thesis by (simp add: f)
qed

end
